theory Spec2Isabelle
  imports Complex_Main "HOL-Library.Word"
begin

section \<open>Data model\<close>

text \<open>
  Bytes are 8-bit words and byte strings are lists of them.  The beacon-chain validator
  type \<^verbatim>\<open>phase0.Validator\<close> is declared in a library.  The sources read
  two of its fields: \<^verbatim>\<open>PublicKey\<close> (a 48-byte array) and
  \<^verbatim>\<open>WithdrawalCredentials\<close> (a byte slice, 32 bytes on a well-formed
  beacon state).  Both are byte lists here, and the lengths are stated where a theorem
  needs them.  A Go pointer that may be nil is an \<open>option\<close>.
\<close>

type_synonym byte = "8 word"
type_synonym bytes = "byte list"

record phase0_Validator =
  PublicKey :: bytes
  WithdrawalCredentials :: bytes
  EffectiveBalance :: "64 word"
  Slashed :: bool

record ValidatorWithIndex =
  Validator :: "phase0_Validator option"
  Index :: nat

text \<open>
  Ways a run ends other than by returning.  \<open>Fatal msg\<close> is the repository's
  \<^verbatim>\<open>PanicOnError(msg, err)\<close> with a non-nil \<open>err\<close>, or
  \<^verbatim>\<open>Panic(msg)\<close>: the message is reported as an error and the process
  stops.  \<open>RuntimePanic\<close> is a panic of the Go runtime (index out of range,
  nil dereference).
\<close>

datatype failure = Fatal string | RuntimePanic

type_synonym go_error = string

section \<open>The credential scan (cli/main.go, findAllValidatorsForEigenpod)\<close>

text \<open>
  The loop of lines 368--383, with the counter \<open>i\<close> and the output slice as
  arguments.  The counter is a \<^verbatim>\<open>uint64\<close> bounded by the length of a
  slice, so it cannot wrap and is a natural number here.  Indexing byte 0 of an empty
  slice and slicing from 12 on a slice shorter than 12 bytes panic in Go.
\<close>

function findAllValidators_loop ::
  "bytes \<Rightarrow> phase0_Validator option list \<Rightarrow> nat \<Rightarrow> ValidatorWithIndex list
    \<Rightarrow> failure + ValidatorWithIndex list" where
  "findAllValidators_loop eigenpodAddressBytes allValidators i outputValidators =
     (if i < length allValidators then
        (case allValidators ! i of
           None \<Rightarrow> findAllValidators_loop eigenpodAddressBytes allValidators (i + 1) outputValidators
         | Some v \<Rightarrow>
             if WithdrawalCredentials v = [] then Inl RuntimePanic
             else if WithdrawalCredentials v ! 0 \<noteq> 1 then
               findAllValidators_loop eigenpodAddressBytes allValidators (i + 1) outputValidators
             else if length (WithdrawalCredentials v) < 12 then Inl RuntimePanic
             else if eigenpodAddressBytes = drop 12 (WithdrawalCredentials v) then
               findAllValidators_loop eigenpodAddressBytes allValidators (i + 1)
                 (outputValidators @ [\<lparr>Validator = Some v, Index = i\<rparr>])
             else findAllValidators_loop eigenpodAddressBytes allValidators (i + 1) outputValidators)
      else Inr outputValidators)"
  by pat_completeness auto
termination
  by (relation "measure (\<lambda>(a, vs, i, out). length vs - i)") auto

text \<open>
  \<open>beaconState_Validators\<close> is what \<^verbatim>\<open>beaconState.Validators()\<close>
  returned: an error or the validator slice.  \<open>eigenpodAddressBytes\<close> is the
  result of \<^verbatim>\<open>common.FromHex(eigenpodAddress)\<close>.
\<close>

definition findAllValidatorsForEigenpod ::
  "bytes \<Rightarrow> go_error + phase0_Validator option list \<Rightarrow> failure + ValidatorWithIndex list" where
  "findAllValidatorsForEigenpod eigenpodAddressBytes beaconState_Validators =
     (case beaconState_Validators of
        Inl err \<Rightarrow> Inl (Fatal ''failed to fetch beacon state'')
      | Inr allValidators \<Rightarrow> findAllValidators_loop eigenpodAddressBytes allValidators 0 [])"

text \<open>
  The matching condition in the words of the specification: the first credential byte is
  1 and the last 20 credential bytes are the pool address bytes.
\<close>

definition credentials_match :: "bytes \<Rightarrow> phase0_Validator option \<Rightarrow> bool" where
  "credentials_match poolAddressBytes p =
     (case p of
        None \<Rightarrow> False
      | Some v \<Rightarrow>
          hd (WithdrawalCredentials v) = 1 \<and>
          drop (length (WithdrawalCredentials v) - 20) (WithdrawalCredentials v) = poolAddressBytes)"

text \<open>Every validator present in the snapshot carries 32 credential bytes.\<close>

definition wellformed_credentials :: "phase0_Validator option list \<Rightarrow> bool" where
  "wellformed_credentials allValidators =
     list_all (\<lambda>p. case p of None \<Rightarrow> True | Some v \<Rightarrow> length (WithdrawalCredentials v) = 32)
       allValidators"

section \<open>The on-chain validator-info lookup (cli/main.go, getOnchainValidatorInfo)\<close>

text \<open>The 16 zero bytes of line 394.\<close>

definition zeroes :: bytes where
  "zeroes = [0, 0, 0, 0, 0, 0, 0, 0, 0, 0, 0, 0, 0, 0, 0, 0]"

text \<open>
  The loop of lines 395--407.  \<open>sha256_Sum256\<close> is the library hash and
  \<open>ValidatorPubkeyHashToInfo\<close> the contract call, both parameters.  The
  public key is a 48-byte array, so \<^verbatim>\<open>append\<close> copies it into a new
  buffer and the validator is not written to.  Besides the result, the function returns
  the keys it passed to \<open>ValidatorPubkeyHashToInfo\<close>, in call order.
  Reading the public key through a nil validator pointer is a runtime panic.
\<close>

fun getOnchainValidatorInfo_loop ::
  "(bytes \<Rightarrow> bytes) \<Rightarrow> (bytes \<Rightarrow> go_error + 'info) \<Rightarrow> ValidatorWithIndex list
    \<Rightarrow> bytes list \<Rightarrow> 'info list \<Rightarrow> bytes list \<times> (failure + 'info list)" where
  "getOnchainValidatorInfo_loop sha256_Sum256 ValidatorPubkeyHashToInfo [] queried validatorInfo =
     (queried, Inr validatorInfo)"
| "getOnchainValidatorInfo_loop sha256_Sum256 ValidatorPubkeyHashToInfo (w # rest) queried validatorInfo =
     (case Validator w of
        None \<Rightarrow> (queried, Inl RuntimePanic)
      | Some v \<Rightarrow>
          let pubKeyHash = sha256_Sum256 (PublicKey v @ zeroes) in
          (case ValidatorPubkeyHashToInfo pubKeyHash of
             Inl err \<Rightarrow> (queried @ [pubKeyHash], Inl (Fatal ''failed to fetch validator eigeninfo.''))
           | Inr info \<Rightarrow>
               getOnchainValidatorInfo_loop sha256_Sum256 ValidatorPubkeyHashToInfo rest
                 (queried @ [pubKeyHash]) (validatorInfo @ [info])))"

text \<open>
  \<open>NewEigenPod_err\<close> is the error of \<^verbatim>\<open>onchain.NewEigenPod\<close>
  (nil when the binding was created).
\<close>

definition getOnchainValidatorInfo ::
  "(bytes \<Rightarrow> bytes) \<Rightarrow> go_error option \<Rightarrow> (bytes \<Rightarrow> go_error + 'info)
    \<Rightarrow> ValidatorWithIndex list \<Rightarrow> bytes list \<times> (failure + 'info list)" where
  "getOnchainValidatorInfo sha256_Sum256 NewEigenPod_err ValidatorPubkeyHashToInfo allValidators =
     (case NewEigenPod_err of
        Some err \<Rightarrow> ([], Inl (Fatal ''failed to locate Eigenpod. Is your address correct?''))
      | None \<Rightarrow>
          getOnchainValidatorInfo_loop sha256_Sum256 ValidatorPubkeyHashToInfo allValidators [] [])"

text \<open>The validators handed to the lookup are present and carry 48-byte public keys.\<close>

definition wellformed_pubkeys :: "ValidatorWithIndex list \<Rightarrow> bool" where
  "wellformed_pubkeys allValidators =
     list_all (\<lambda>w. case Validator w of None \<Rightarrow> False | Some v \<Rightarrow> length (PublicKey v) = 48)
       allValidators"

text \<open>The public key of an entry whose validator pointer is set.\<close>

definition pubkey_of :: "ValidatorWithIndex \<Rightarrow> bytes" where
  "pubkey_of w = (case Validator w of None \<Rightarrow> [] | Some v \<Rightarrow> PublicKey v)"

section \<open>The share report of the status command (cli/main.go, lines 101--127)\<close>

text \<open>
  \<^verbatim>\<open>big.Float\<close> values are objects behind pointers, and
  \<^verbatim>\<open>z.Sub(x, y)\<close> writes its result into the receiver \<open>z\<close>.
  Whether the report changes a value it was given therefore depends on which object is
  the receiver.  The store is a list of float values; an address is an index into it and
  \<^verbatim>\<open>new(big.Float)\<close> extends the list by one cell.  The values
  themselves and their rounding subtraction are parameters (\<open>'f\<close>,
  \<open>sub\<close>, \<open>zero\<close>).
\<close>

type_synonym addr = nat
type_synonym 'f store = "'f list"

definition new_big_Float :: "'f \<Rightarrow> 'f store \<Rightarrow> 'f store \<times> addr" where
  "new_big_Float zero h = (h @ [zero], length h)"

text \<open>Dereferencing a nil or dangling operand is a runtime panic.\<close>

definition big_Float_Sub ::
  "('f \<Rightarrow> 'f \<Rightarrow> 'f) \<Rightarrow> 'f store \<Rightarrow> addr \<Rightarrow> addr option \<Rightarrow> addr option
    \<Rightarrow> failure + 'f store \<times> addr" where
  "big_Float_Sub sub h z x y =
     (case x of
        None \<Rightarrow> Inl RuntimePanic
      | Some xa \<Rightarrow>
          (case y of
             None \<Rightarrow> Inl RuntimePanic
           | Some ya \<Rightarrow>
               if xa < length h \<and> ya < length h \<and> z < length h
               then Inr (h[z := sub (h ! xa) (h ! ya)], z)
               else Inl RuntimePanic))"

text \<open>
  The fields of the status value that the report reads.  The declarations are not in the
  sources; the field types follow from their use (arguments of
  \<^verbatim>\<open>big.Float.Sub\<close> and of \<^verbatim>\<open>gweiToEther\<close>, the
  \<^verbatim>\<open>nil\<close> test on \<^verbatim>\<open>ActiveCheckpoint\<close>).
\<close>

record Checkpoint =
  StartedAt :: "64 word"
  PendingSharesGwei :: "addr option"
  ProofsRemaining :: "64 word"

record EigenpodStatus =
  ActiveCheckpoint :: "Checkpoint option"
  CurrentTotalSharesETH :: "addr option"
  TotalSharesAfterCheckpointETH :: "addr option"

text \<open>
  What the report prints: the values read from the store at the time of printing.
\<close>

datatype 'f share_report =
    CheckpointActive "64 word" 'f 'f 'f "64 word"
  | CheckpointPreview 'f 'f 'f

definition deref :: "'f store \<Rightarrow> addr option \<Rightarrow> failure + 'f" where
  "deref h p =
     (case p of
        None \<Rightarrow> Inl RuntimePanic
      | Some a \<Rightarrow> if a < length h then Inr (h ! a) else Inl RuntimePanic)"

text \<open>
  Lines 105--127.  \<^verbatim>\<open>gweiToEther\<close> is not in the sources and is a
  parameter: a store transformer that returns the address of its result.  In the first
  branch the printed values are the start time, the delta, the current total shares, the
  end shares and the number of proofs remaining; in the second the delta, the start and
  the end value.
\<close>

definition status_share_report ::
  "('f \<Rightarrow> 'f \<Rightarrow> 'f) \<Rightarrow> 'f \<Rightarrow> ('f store \<Rightarrow> addr option \<Rightarrow> failure + 'f store \<times> addr)
    \<Rightarrow> 'f store \<Rightarrow> EigenpodStatus \<Rightarrow> failure + 'f store \<times> 'f share_report" where
  "status_share_report sub zero gweiToEther h status =
     (case ActiveCheckpoint status of
        Some cp \<Rightarrow>
          (case gweiToEther h (PendingSharesGwei cp) of
             Inl f \<Rightarrow> Inl f
           | Inr (h1, endSharesETH) \<Rightarrow>
               (case new_big_Float zero h1 of (h2, z) \<Rightarrow>
                 (case big_Float_Sub sub h2 z (Some endSharesETH) (CurrentTotalSharesETH status) of
                    Inl f \<Rightarrow> Inl f
                  | Inr (h3, deltaETH) \<Rightarrow>
                      (case deref h3 (CurrentTotalSharesETH status) of
                         Inl f \<Rightarrow> Inl f
                       | Inr cur \<Rightarrow>
                           Inr (h3, CheckpointActive (StartedAt cp) (h3 ! deltaETH) cur
                                      (h3 ! endSharesETH) (ProofsRemaining cp))))))
      | None \<Rightarrow>
          (let startEther = CurrentTotalSharesETH status;
               endEther = TotalSharesAfterCheckpointETH status
           in case new_big_Float zero h of (h1, z) \<Rightarrow>
                (case big_Float_Sub sub h1 z endEther startEther of
                   Inl f \<Rightarrow> Inl f
                 | Inr (h2, delta) \<Rightarrow>
                     (case deref h2 startEther of
                        Inl f \<Rightarrow> Inl f
                      | Inr s \<Rightarrow>
                          (case deref h2 endEther of
                             Inl f \<Rightarrow> Inl f
                           | Inr e \<Rightarrow> Inr (h2, CheckpointPreview (h2 ! delta) s e))))))"

text \<open>
  What the report may rely on from \<^verbatim>\<open>gweiToEther\<close> at the call it
  makes: the call returns a valid address and leaves every cell that existed before as it
  was.
\<close>

definition conversion_preserves ::
  "('f store \<Rightarrow> addr option \<Rightarrow> failure + 'f store \<times> addr) \<Rightarrow> 'f store \<Rightarrow> addr option \<Rightarrow> bool" where
  "conversion_preserves gweiToEther h p =
     (case gweiToEther h p of
        Inl f \<Rightarrow> False
      | Inr (h1, e) \<Rightarrow> e < length h1 \<and> take (length h) h1 = h)"

section \<open>The credentials command (package commands, CredentialsCommand)\<close>

record TCredentialCommandArgs =
  EigenpodAddress :: string
  DisableColor :: bool
  UseJSON :: bool
  SimulateTransaction :: bool
  Node :: string
  BeaconNode :: string
  Sender :: string
  SpecificValidator :: "64 word"
  BatchSize :: "64 word"
  NoPrompt :: bool
  Verbose :: bool

text \<open>
  The functions of package \<^verbatim>\<open>core\<close> that the command calls are not in
  the sources.  They are parameters: each maps the arguments the command passes to what
  the call returned.  The client handles and the chain id, which the command only passes
  on, are left out.  \<open>GetClients\<close> returns its error (\<open>None\<close> for nil);
  the other two return \<open>Inl\<close> of the error or \<open>Inr\<close> of their values.
\<close>

record ('proofs, 'txn) core_calls =
  GetClients :: "string \<Rightarrow> string \<Rightarrow> bool \<Rightarrow> go_error option"
  GenerateValidatorProof ::
    "string \<Rightarrow> 64 word option \<Rightarrow> bool \<Rightarrow> go_error + 'proofs option \<times> 64 word"
  SubmitValidatorProof ::
    "string \<Rightarrow> string \<Rightarrow> 64 word \<Rightarrow> 'proofs \<Rightarrow> 64 word \<Rightarrow> bool \<Rightarrow> bool \<Rightarrow> bool
      \<Rightarrow> go_error + 'txn list \<times> 64 word list list"

text \<open>
  What a run does that can be observed from outside, in order: the calls into
  \<^verbatim>\<open>core\<close> (\<open>Call_GetClients\<close> connects to the execution and
  beacon nodes; \<open>Call_SubmitValidatorProof\<close> builds and sends or simulates the
  transactions) and the lines it prints.
\<close>

datatype ('proofs, 'txn) event =
    Call_GetClients string string bool
  | Print_UsingSpecificValidator "64 word"
  | Call_GenerateValidatorProof string "64 word option" bool
  | Call_SubmitValidatorProof string string "64 word" 'proofs "64 word" bool bool bool
  | Print_Proofs "'txn list" "64 word list list"
  | Print_Transactions "'txn list"

text \<open>
  Modelled from the spec: \<^verbatim>\<open>core.PanicOnError\<close> and
  \<^verbatim>\<open>core.Panic\<close> are not in the sources.  Following the specification
  (panic-on-error control flow: the first fatal error aborts the whole invocation with a
  message), \<^verbatim>\<open>PanicOnError(msg, err)\<close> does nothing when \<open>err\<close>
  is nil and otherwise ends the run with \<open>Fatal msg\<close>, and
  \<^verbatim>\<open>Panic(msg)\<close> always ends the run with \<open>Fatal msg\<close>.
  A run is the list of events so far and either the failure that ended it or the error
  value returned (\<open>None\<close> for \<^verbatim>\<open>return nil\<close>).
\<close>

type_synonym ('proofs, 'txn) run = "('proofs, 'txn) event list \<times> (failure + go_error option)"

definition math_MaxUint64 :: "64 word" where
  "math_MaxUint64 = 18446744073709551615"

text \<open>Line 36 and lines 46--48: the two values the command derives from its arguments.\<close>

definition isVerbose :: "TCredentialCommandArgs \<Rightarrow> bool" where
  "isVerbose args = ((\<not> UseJSON args \<and> \<not> SimulateTransaction args) \<or> Verbose args)"

definition specificValidatorIndex :: "TCredentialCommandArgs \<Rightarrow> 64 word option" where
  "specificValidatorIndex args =
     (if SpecificValidator args \<noteq> math_MaxUint64 \<and> SpecificValidator args \<noteq> 0
      then Some (SpecificValidator args) else None)"

definition CredentialsCommand ::
  "('proofs, 'txn) core_calls \<Rightarrow> TCredentialCommandArgs \<Rightarrow> ('proofs, 'txn) run" where
  "CredentialsCommand core args =
     (let ev1 = [Call_GetClients (Node args) (BeaconNode args) (isVerbose args)]
      in case GetClients core (Node args) (BeaconNode args) (isVerbose args) of
           Some err \<Rightarrow> (ev1, Inl (Fatal ''failed to reach ethereum clients''))
         | None \<Rightarrow>
             if SimulateTransaction args \<and> length (Sender args) > 0
             then (ev1, Inl (Fatal ''if using --print-calldata, please do not specify a --sender.''))
             else
               let ev2 = ev1
                     @ (if specificValidatorIndex args \<noteq> None \<and> isVerbose args
                        then [Print_UsingSpecificValidator (SpecificValidator args)] else [])
                     @ [Call_GenerateValidatorProof (EigenpodAddress args)
                          (specificValidatorIndex args) (isVerbose args)]
               in case GenerateValidatorProof core (EigenpodAddress args)
                         (specificValidatorIndex args) (isVerbose args) of
                    Inl err \<Rightarrow> (ev2, Inl (Fatal ''Failed to generate validator proof''))
                  | Inr (None, oracleBeaconTimestamp) \<Rightarrow> (ev2, Inl (Fatal ''no inactive validators''))
                  | Inr (Some validatorProofs, oracleBeaconTimestamp) \<Rightarrow>
                      if length (Sender args) \<noteq> 0 \<or> SimulateTransaction args
                      then
                        let ev3 = ev2 @ [Call_SubmitValidatorProof (Sender args) (EigenpodAddress args)
                                           (BatchSize args) validatorProofs oracleBeaconTimestamp
                                           (NoPrompt args) (SimulateTransaction args) (isVerbose args)]
                        in case SubmitValidatorProof core (Sender args) (EigenpodAddress args)
                                  (BatchSize args) validatorProofs oracleBeaconTimestamp
                                  (NoPrompt args) (SimulateTransaction args) (isVerbose args) of
                             Inl err \<Rightarrow>
                               (ev3, Inl (Fatal (''failed to ''
                                  @ (if SimulateTransaction args then ''simulate'' else ''submit'')
                                  @ '' validator proof'')))
                           | Inr (txns, indices) \<Rightarrow>
                               (ev3 @ [if SimulateTransaction args then Print_Proofs txns indices
                                       else Print_Transactions txns],
                                Inr None)
                      else (ev2, Inr None))"

text \<open>The calls of a run that submit or simulate transactions.\<close>

fun is_submission :: "('proofs, 'txn) event \<Rightarrow> bool" where
  "is_submission (Call_SubmitValidatorProof s a b p t np sim v) = True"
| "is_submission e = False"

text \<open>A network call is a call that reaches the execution or beacon node.\<close>

fun is_network_call :: "('proofs, 'txn) event \<Rightarrow> bool" where
  "is_network_call (Call_GetClients n b v) = True"
| "is_network_call (Call_GenerateValidatorProof a k v) = True"
| "is_network_call (Call_SubmitValidatorProof s a b p t np sim v) = True"
| "is_network_call (Print_UsingSpecificValidator k) = False"
| "is_network_call (Print_Proofs ts ixs) = False"
| "is_network_call (Print_Transactions ts) = False"

section \<open>The credentials action of cli/main.go (lines 214--280) and getClients\<close>

text \<open>
  The outcomes of the calls the action makes are parameters, as above.
  \<open>GenerateValidatorProof_main\<close> returns the proofs and the validator indices,
  each of which may be nil.
\<close>

record 'proofs main_calls =
  ethclient_Dial :: "string \<Rightarrow> go_error option"
  eth_ChainID :: "go_error option"
  NewBeaconClient :: "string \<Rightarrow> go_error option"
  GenerateValidatorProof_main :: "string \<Rightarrow> 'proofs option \<times> 64 word list option"
  json_Marshal :: "'proofs \<Rightarrow> go_error + string"
  prepareAccount :: "string \<Rightarrow> go_error option"
  onchain_NewEigenPod :: "string \<Rightarrow> go_error option"
  eth_BlockByNumber :: "go_error option"
  VerifyWithdrawalCredentials :: "'proofs \<Rightarrow> 64 word list \<Rightarrow> go_error + string"

datatype 'proofs main_event =
    Net_Dial string
  | Net_ChainID
  | Net_NewBeaconClient string
  | Call_GenerateValidatorProof_main string
  | Write_Output string "string option"
  | Call_prepareAccount string
  | Call_NewEigenPod string
  | Net_BlockByNumber
  | Print_Submitting
  | Net_VerifyWithdrawalCredentials 'proofs "64 word list"
  | Print_Transaction string

text \<open>getClients, lines 422--433.\<close>

definition getClients ::
  "'proofs main_calls \<Rightarrow> string \<Rightarrow> string \<Rightarrow> 'proofs main_event list \<times> (failure + unit)" where
  "getClients env node beaconNodeUri =
     (case ethclient_Dial env node of
        Some err \<Rightarrow> ([Net_Dial node], Inl (Fatal ''failed to reach eth --node.''))
      | None \<Rightarrow>
          (case eth_ChainID env of
             Some err \<Rightarrow> ([Net_Dial node, Net_ChainID], Inl (Fatal ''failed to fetch chain id''))
           | None \<Rightarrow>
               (case NewBeaconClient env beaconNodeUri of
                  Some err \<Rightarrow>
                    ([Net_Dial node, Net_ChainID, Net_NewBeaconClient beaconNodeUri],
                     Inl (Fatal ''failed to reach beacon chain.''))
                | None \<Rightarrow>
                    ([Net_Dial node, Net_ChainID, Net_NewBeaconClient beaconNodeUri], Inr ()))))"

text \<open>The flags the action reads.\<close>

record main_flags =
  podAddress :: string
  beaconNode :: string
  execNode :: string
  out_flag :: string
  owner_flag :: string

text \<open>
  The submission of lines 242--278, reached with a non-nil owner.
\<close>

definition credentials_submit ::
  "'proofs main_calls \<Rightarrow> main_flags \<Rightarrow> string \<Rightarrow> 'proofs \<Rightarrow> 64 word list
    \<Rightarrow> 'proofs main_event list \<times> (failure + go_error option)" where
  "credentials_submit env flags owner validatorProofs validatorIndices =
     (case prepareAccount env owner of
        Some err \<Rightarrow> ([Call_prepareAccount owner], Inl (Fatal ''failed to parse private key''))
      | None \<Rightarrow>
          (case onchain_NewEigenPod env (podAddress flags) of
             Some err \<Rightarrow>
               ([Call_prepareAccount owner, Call_NewEigenPod (podAddress flags)],
                Inl (Fatal ''failed to reach eigenpod''))
           | None \<Rightarrow>
               (case eth_BlockByNumber env of
                  Some err \<Rightarrow>
                    ([Call_prepareAccount owner, Call_NewEigenPod (podAddress flags), Net_BlockByNumber],
                     Inl (Fatal ''failed to load latest block''))
                | None \<Rightarrow>
                    (case VerifyWithdrawalCredentials env validatorProofs validatorIndices of
                       Inl err \<Rightarrow>
                         ([Call_prepareAccount owner, Call_NewEigenPod (podAddress flags),
                           Net_BlockByNumber, Print_Submitting,
                           Net_VerifyWithdrawalCredentials validatorProofs validatorIndices],
                          Inl (Fatal ''failed to invoke verifyWithdrawalCredentials''))
                     | Inr txnHash \<Rightarrow>
                         ([Call_prepareAccount owner, Call_NewEigenPod (podAddress flags),
                           Net_BlockByNumber, Print_Submitting,
                           Net_VerifyWithdrawalCredentials validatorProofs validatorIndices,
                           Print_Transaction txnHash],
                          Inr None)))))"

definition credentials_action ::
  "'proofs main_calls \<Rightarrow> main_flags \<Rightarrow> 'proofs main_event list \<times> (failure + go_error option)" where
  "credentials_action env flags =
     (let out = (if length (out_flag flags) > 0 then Some (out_flag flags) else None);
          owner = (if length (owner_flag flags) > 0 then Some (owner_flag flags) else None)
      in case getClients env (execNode flags) (beaconNode flags) of
           (ev1, Inl f) \<Rightarrow> (ev1, Inl f)
         | (ev1, Inr u) \<Rightarrow>
             (case GenerateValidatorProof_main env (podAddress flags) of
                (None, validatorIndices) \<Rightarrow>
                  (ev1 @ [Call_GenerateValidatorProof_main (podAddress flags)], Inr None)
              | (Some validatorProofs, None) \<Rightarrow>
                  (ev1 @ [Call_GenerateValidatorProof_main (podAddress flags)], Inr None)
              | (Some validatorProofs, Some validatorIndices) \<Rightarrow>
                  (case json_Marshal env validatorProofs of
                     Inl err \<Rightarrow>
                       (ev1 @ [Call_GenerateValidatorProof_main (podAddress flags)],
                        Inl (Fatal ''failed to generate JSON proof data.''))
                   | Inr jsonString \<Rightarrow>
                       (case owner of
                          None \<Rightarrow>
                            (ev1 @ [Call_GenerateValidatorProof_main (podAddress flags),
                                    Write_Output jsonString out],
                             Inr None)
                        | Some ownerKey \<Rightarrow>
                            (case credentials_submit env flags ownerKey validatorProofs validatorIndices of
                               (ev2, r) \<Rightarrow>
                                 (ev1 @ [Call_GenerateValidatorProof_main (podAddress flags),
                                         Write_Output jsonString out] @ ev2,
                                  r))))))"

section \<open>Parts of the engine that are not in the sources\<close>

subsection \<open>Selecting a specific validator\<close>



subsection \<open>Partitioning into batches\<close>

text \<open>
  Modelled from the spec: the batching function of the submitter is not in the sources.
  "Validator indices are split into contiguous chunks of size \<^verbatim>\<open>batchSize\<close>,
  last chunk possibly smaller."  The specification gives no meaning to a batch size of 0;
  the model then produces no chunk.
\<close>

function chunk :: "'a list \<Rightarrow> nat \<Rightarrow> 'a list list" where
  "chunk arr chunkSize =
     (if chunkSize = 0 \<or> arr = [] then []
      else take chunkSize arr # chunk (drop chunkSize arr) chunkSize)"
  by pat_completeness auto
termination
  by (relation "measure (\<lambda>(arr, chunkSize). length arr)") auto

subsection \<open>Merkle proofs\<close>

text \<open>
  The Merkle proof builder is not in the sources.  The definitions of this subsection
  follow section 4.1 of the specification.  The hash \<open>H\<close> (SHA-256 in the
  program) is a parameter.
\<close>

datatype merkle_error = MalformedTreeError

record MerkleProof =
  leaf :: bytes
  path :: "bytes list"
  generalizedIndex :: nat
  root_hash :: bytes

text \<open>
  Modelled from the spec: "any leaf shorter than the hash width is zero-padded on the
  right before hashing"; the hash width is 32 bytes.  The padding function is not in the
  sources.
\<close>

definition zero_pad :: "bytes \<Rightarrow> bytes" where
  "zero_pad x = x @ replicate (32 - length x) 0"

text \<open>
  Modelled from the spec: "leaves are hashed pairwise bottom-up", and an interior node is
  the hash of the concatenation of its two children.  This is one level of that hashing;
  the tree code is not in the sources.
\<close>

fun hash_pairs :: "(bytes \<Rightarrow> bytes) \<Rightarrow> bytes list \<Rightarrow> bytes list" where
  "hash_pairs H (a # b # rest) = H (a @ b) # hash_pairs H rest"
| "hash_pairs H [a] = []"
| "hash_pairs H [] = []"

text \<open>
  Modelled from the spec: the bottom-up hashing, repeated until one node, the root, is
  left.  The tree code is not in the sources.
\<close>

function merkle_reduce :: "(bytes \<Rightarrow> bytes) \<Rightarrow> bytes list \<Rightarrow> bytes" where
  "merkle_reduce H level =
     (case level of
        [] \<Rightarrow> []
      | [r] \<Rightarrow> r
      | a # b # rest \<Rightarrow> merkle_reduce H (hash_pairs H level))"
  by pat_completeness auto
termination
proof (relation "measure (\<lambda>(H, level). length level)")
  show "wf (measure (\<lambda>(H, level). length level))" by simp
next
  fix H :: "bytes \<Rightarrow> bytes" and level :: "bytes list" and a x b rest
  have "length (hash_pairs H xs) \<le> length xs div 2" for xs
    by (induction H xs rule: hash_pairs.induct) auto
  from this [of "a # b # rest"]
  show "level = a # x \<Longrightarrow> x = b # rest \<Longrightarrow>
        ((H, hash_pairs H level), (H, level)) \<in> measure (\<lambda>(H, level). length level)"
    by auto
qed

text \<open>
  Modelled from the spec: "at each level the sibling opposite the path bit is recorded
  into path".  The function returns the siblings along the way from position \<open>i\<close>
  of the current level to the root; the proof builder is not in the sources.
\<close>

function sibling_path :: "(bytes \<Rightarrow> bytes) \<Rightarrow> bytes list \<Rightarrow> nat \<Rightarrow> bytes list" where
  "sibling_path H level i =
     (if length level \<le> 1 then []
      else level ! (if even i then i + 1 else i - 1) # sibling_path H (hash_pairs H level) (i div 2))"
  by pat_completeness auto
termination
proof (relation "measure (\<lambda>(H, level, i). length level)")
  show "wf (measure (\<lambda>(H, level, i). length level))" by simp
next
  fix H :: "bytes \<Rightarrow> bytes" and level :: "bytes list" and i :: nat
  have "length (hash_pairs H xs) \<le> length xs div 2" for xs
    by (induction H xs rule: hash_pairs.induct) auto
  from this [of level]
  show "\<not> length level \<le> 1 \<Longrightarrow>
        ((H, hash_pairs H level, i div 2), (H, level, i)) \<in> measure (\<lambda>(H, level, i). length level)"
    by auto
qed

text \<open>
  Modelled from the spec: the test behind "fails with MalformedTreeError if leaves length
  is not a power of two"; it is not in the sources.
\<close>

fun is_power_of_two :: "nat \<Rightarrow> bool" where
  "is_power_of_two n =
     (if n \<le> 1 then n = 1 else even n \<and> is_power_of_two (n div 2))"

text \<open>
  Modelled from the spec: the root of the tree over the given leaves, padded and hashed
  bottom-up.  The tree code is not in the sources.
\<close>

definition merkle_root :: "(bytes \<Rightarrow> bytes) \<Rightarrow> bytes list \<Rightarrow> bytes" where
  "merkle_root H leaves = merkle_reduce H (map zero_pad leaves)"

text \<open>
  Modelled from the spec: \<^verbatim>\<open>build(leaves, generalizedIndex)\<close>, which is not
  in the sources.  It "fails with MalformedTreeError if leaves length is not a power of
  two or generalizedIndex is out of range".  The generalized index encodes leaf position
  and tree depth: the root is 1 and the children of node \<open>g\<close> are \<open>2g\<close> and
  \<open>2g + 1\<close>, so leaf \<open>i\<close> of a tree with \<open>n\<close> leaves has index
  \<open>n + i\<close>, and the index is in range when it names a leaf.
\<close>

definition build ::
  "(bytes \<Rightarrow> bytes) \<Rightarrow> bytes list \<Rightarrow> nat \<Rightarrow> merkle_error + MerkleProof" where
  "build H leaves g =
     (let n = length leaves in
      if \<not> is_power_of_two n \<or> g < n \<or> 2 * n \<le> g then Inl MalformedTreeError
      else Inr \<lparr>leaf = leaves ! (g - n),
                path = sibling_path H (map zero_pad leaves) (g - n),
                generalizedIndex = g,
                root_hash = merkle_root H leaves\<rparr>)"

text \<open>
  Modelled from the spec: the fold of \<^verbatim>\<open>verify\<close>, which is not in the
  sources: "folds path against leaf using generalizedIndex's bit sequence (low bit =
  direction at the deepest level)".  An odd index is a right child, so its sibling is
  hashed on the left.
\<close>

fun fold_path :: "(bytes \<Rightarrow> bytes) \<Rightarrow> bytes list \<Rightarrow> nat \<Rightarrow> bytes \<Rightarrow> bytes" where
  "fold_path H [] g node = node"
| "fold_path H (s # rest) g node =
     fold_path H rest (g div 2) (if odd g then H (s @ node) else H (node @ s))"

text \<open>
  Modelled from the spec: \<^verbatim>\<open>verify(proof, expectedRoot)\<close>, which is not in
  the sources; it "returns false, never throws, on mismatch".
\<close>

definition verify :: "(bytes \<Rightarrow> bytes) \<Rightarrow> MerkleProof \<Rightarrow> bytes \<Rightarrow> bool" where
  "verify H p expectedRoot =
     (fold_path H (path p) (generalizedIndex p) (zero_pad (leaf p)) = expectedRoot)"

subsection \<open>Proof generation for the credentials command\<close>


section \<open>Example inputs\<close>

text \<open>
  A validator whose credentials are the prefix byte \<open>p\<close>, eleven zero bytes and
  twenty bytes \<open>b\<close>; a stand-in for the hash function.
\<close>

definition ex_validator :: "byte \<Rightarrow> byte \<Rightarrow> phase0_Validator" where
  "ex_validator p b =
     \<lparr>PublicKey = replicate 48 7,
      WithdrawalCredentials = p # replicate 11 0 @ replicate 20 b,
      EffectiveBalance = 32, Slashed = False\<rparr>"

definition toy_hash :: "bytes \<Rightarrow> bytes" where
  "toy_hash b = take 32 (rev b)"

text \<open>
  The recursive equations below are applied by hand in the proofs and are not rewrite
  rules.
\<close>

declare merkle_reduce.simps [simp del]
declare sibling_path.simps [simp del]
declare is_power_of_two.simps [simp del]
declare chunk.simps [simp del]

text \<open>
  Arguments and environments for the credentials command: every call succeeds
  (\<open>ex_core\<close>); the nodes cannot be reached (\<open>ex_core_unreachable\<close>);
  no validator awaits a proof (\<open>ex_core_nothing\<close>); the requested validator is
  not found (\<open>ex_core_notfound\<close>).
\<close>

definition ex_args :: TCredentialCommandArgs where
  "ex_args =
     \<lparr>EigenpodAddress = ''0xPOD'', DisableColor = False, UseJSON = False,
      SimulateTransaction = False, Node = ''exec'', BeaconNode = ''beacon'', Sender = [],
      SpecificValidator = math_MaxUint64, BatchSize = 2, NoPrompt = True, Verbose = False\<rparr>"

definition ex_core :: "(nat, string) core_calls" where
  "ex_core =
     \<lparr>GetClients = (\<lambda>node beacon verbose. None),
      GenerateValidatorProof = (\<lambda>pod k verbose. Inr (Some 7, 1700000000)),
      SubmitValidatorProof = (\<lambda>sender pod batch proofs ts noPrompt sim verbose. Inr ([''tx''], [[4]]))\<rparr>"

definition ex_core_unreachable :: "(nat, string) core_calls" where
  "ex_core_unreachable = ex_core\<lparr>GetClients := (\<lambda>node beacon verbose. Some ''connection refused'')\<rparr>"

definition ex_core_nothing :: "(nat, string) core_calls" where
  "ex_core_nothing = ex_core\<lparr>GenerateValidatorProof := (\<lambda>pod k verbose. Inr (None, 0))\<rparr>"

definition ex_core_notfound :: "(nat, string) core_calls" where
  "ex_core_notfound = ex_core\<lparr>GenerateValidatorProof := (\<lambda>pod k verbose. Inl ''validator not found'')\<rparr>"

text \<open>Flags and an environment for the credentials action of cli/main.go.\<close>

definition ex_flags :: main_flags where
  "ex_flags =
     \<lparr>podAddress = ''0xPOD'', beaconNode = ''beacon'', execNode = ''exec'',
      out_flag = [], owner_flag = ''key''\<rparr>"

definition ex_main_nothing :: "nat main_calls" where
  "ex_main_nothing =
     \<lparr>ethclient_Dial = (\<lambda>node. None), eth_ChainID = None, NewBeaconClient = (\<lambda>uri. None),
      GenerateValidatorProof_main = (\<lambda>pod. (None, None)),
      json_Marshal = (\<lambda>p. Inr ''{}''), prepareAccount = (\<lambda>k. None),
      onchain_NewEigenPod = (\<lambda>a. None), eth_BlockByNumber = None,
      VerifyWithdrawalCredentials = (\<lambda>p ixs. Inr ''0xhash'')\<rparr>"

text \<open>
  For the share report: rationals stand in for the float values, and the conversion
  allocates a new value holding the amount divided by \<open>10^9\<close>.
\<close>

definition ex_gweiToEther :: "rat store \<Rightarrow> addr option \<Rightarrow> failure + rat store \<times> addr" where
  "ex_gweiToEther h p =
     (case deref h p of
        Inl f \<Rightarrow> Inl f
      | Inr x \<Rightarrow> Inr (h @ [x / 1000000000], length h))"

definition ex_store :: "rat store" where
  "ex_store = [5000000000, 3, 4]"

definition ex_status_active :: EigenpodStatus where
  "ex_status_active =
     \<lparr>ActiveCheckpoint = Some \<lparr>StartedAt = 1700000000, PendingSharesGwei = Some 0, ProofsRemaining = 2\<rparr>,
      CurrentTotalSharesETH = Some 1,
      TotalSharesAfterCheckpointETH = Some 2\<rparr>"

definition ex_status_idle :: EigenpodStatus where
  "ex_status_idle = ex_status_active\<lparr>ActiveCheckpoint := None\<rparr>"



section \<open>Properties of the credential scan\<close>

lemma findAllValidators_loop_filter:
  assumes "wellformed_credentials vs" and "i \<le> length vs"
  shows "findAllValidators_loop a vs i out =
           Inr (out @ map (\<lambda>k. \<lparr>Validator = vs ! k, Index = k\<rparr>)
                        (filter (\<lambda>k. credentials_match a (vs ! k)) [i..<length vs]))"
  using assms
proof (induction a vs i out rule: findAllValidators_loop.induct)
  case (1 a vs i out)
  show ?case
  proof (cases "i < length vs")
    case False
    with "1.prems" show ?thesis by simp
  next
    case True
    then have upt: "[i..<length vs] = i # [Suc i..<length vs]"
      by (rule upt_conv_Cons)
    show ?thesis
    proof (cases "vs ! i")
      case None
      with True "1.IH"(1) "1.prems" upt show ?thesis
        by (simp add: credentials_match_def)
    next
      case (Some v)
      from True have "vs ! i \<in> set vs" by simp
      with "1.prems"(1) Some have len: "length (WithdrawalCredentials v) = 32"
        by (auto simp: wellformed_credentials_def list_all_iff)
      then have ne: "WithdrawalCredentials v \<noteq> []" by auto
      then have hd0: "WithdrawalCredentials v ! 0 = hd (WithdrawalCredentials v)"
        by (simp add: hd_conv_nth)
      show ?thesis
      proof (cases "hd (WithdrawalCredentials v) = 1")
        case False
        with True Some ne hd0 "1.IH"(2) "1.prems" upt show ?thesis
          by (simp add: credentials_match_def)
      next
        case hd1: True
        show ?thesis
        proof (cases "a = drop 12 (WithdrawalCredentials v)")
          case True
          with \<open>i < length vs\<close> Some ne hd0 hd1 len "1.IH"(3) "1.prems" upt show ?thesis
            by (simp add: credentials_match_def)
        next
          case False
          with \<open>i < length vs\<close> Some ne hd0 hd1 len "1.IH"(4) "1.prems" upt show ?thesis
            by (auto simp add: credentials_match_def)
        qed
      qed
    qed
  qed
qed

text \<open>
  Claim C1.  On a snapshot whose validators carry 32 credential bytes, the scan returns
  exactly the validators whose first credential byte is 1 and whose last 20 credential
  bytes are the pool address bytes, each with its position in the snapshot, in ascending
  order of position, whatever the size of the snapshot.
\<close>

theorem credential_scan_exact:
  assumes "wellformed_credentials allValidators"
  shows "\<exists>out. findAllValidatorsForEigenpod poolAddressBytes (Inr allValidators) = Inr out
           \<and> out = map (\<lambda>k. \<lparr>Validator = allValidators ! k, Index = k\<rparr>)
                      (filter (\<lambda>k. credentials_match poolAddressBytes (allValidators ! k))
                         [0..<length allValidators])
           \<and> sorted_wrt (<) (map Index out)
           \<and> (\<forall>w. w \<in> set out \<longleftrightarrow>
                  Index w < length allValidators \<and> Validator w = allValidators ! Index w \<and>
                  credentials_match poolAddressBytes (Validator w))"
proof -
  let ?sel = "filter (\<lambda>k. credentials_match poolAddressBytes (allValidators ! k))
                [0..<length allValidators]"
  let ?out = "map (\<lambda>k. \<lparr>Validator = allValidators ! k, Index = k\<rparr>) ?sel"
  have eq: "findAllValidatorsForEigenpod poolAddressBytes (Inr allValidators) = Inr ?out"
    using findAllValidators_loop_filter [OF assms, of 0 poolAddressBytes "[]"]
    by (simp add: findAllValidatorsForEigenpod_def)
  have idx: "map Index ?out = ?sel"
    by (simp add: comp_def)
  have "sorted_wrt (<) ?sel"
    by (rule sorted_wrt_filter) simp
  with idx have asc: "sorted_wrt (<) (map Index ?out)" by simp
  have mem: "w \<in> set ?out \<longleftrightarrow>
      Index w < length allValidators \<and> Validator w = allValidators ! Index w \<and>
      credentials_match poolAddressBytes (Validator w)" for w
    by (cases w) auto
  from eq asc mem show ?thesis by simp
qed

theorem credential_scan_exact_witness:
  "wellformed_credentials
     [Some (ex_validator 1 0xAB), None, Some (ex_validator 0 0xAB),
      Some (ex_validator 1 0xCD), Some (ex_validator 1 0xAB)]
   \<and> findAllValidatorsForEigenpod (replicate 20 0xAB)
        (Inr [Some (ex_validator 1 0xAB), None, Some (ex_validator 0 0xAB),
              Some (ex_validator 1 0xCD), Some (ex_validator 1 0xAB)])
      = Inr [\<lparr>Validator = Some (ex_validator 1 0xAB), Index = 0\<rparr>,
             \<lparr>Validator = Some (ex_validator 1 0xAB), Index = 4\<rparr>]"
proof -
  have wf: "wellformed_credentials
     [Some (ex_validator 1 0xAB), None, Some (ex_validator 0 0xAB),
      Some (ex_validator 1 0xCD), Some (ex_validator 1 0xAB)]"
    by (simp add: wellformed_credentials_def ex_validator_def)
  have upt5: "[0..<5] = [0, 1, 2, 3, 4]" by (simp add: upt_rec)
  from credential_scan_exact [OF wf, of "replicate 20 0xAB"] wf show ?thesis
    by (simp add: upt5 credentials_match_def ex_validator_def)
qed

section \<open>Properties of the on-chain lookup\<close>

lemma zeroes_replicate: "zeroes = replicate 16 0"
  by (simp add: zeroes_def numeral_eq_Suc)

lemma getOnchainValidatorInfo_loop_exact:
  assumes "wellformed_pubkeys vs"
  shows "getOnchainValidatorInfo_loop sha lookup vs q infos =
           (let key = (\<lambda>w. sha (pubkey_of w @ zeroes));
                ok = takeWhile (\<lambda>w. \<not> isl (lookup (key w))) vs
            in if length ok = length vs
               then (q @ map key vs, Inr (infos @ map (\<lambda>w. projr (lookup (key w))) vs))
               else (q @ map key (take (Suc (length ok)) vs),
                     Inl (Fatal ''failed to fetch validator eigeninfo.'')))"
  using assms
proof (induction vs arbitrary: q infos)
  case Nil
  then show ?case by simp
next
  case (Cons w rest)
  from Cons.prems obtain v where v: "Validator w = Some v" and wf: "wellformed_pubkeys rest"
    by (auto simp: wellformed_pubkeys_def split: option.splits)
  let ?key = "sha (PublicKey v @ zeroes)"
  from v have pk: "pubkey_of w = PublicKey v" by (simp add: pubkey_of_def)
  show ?case
  proof (cases "lookup ?key")
    case (Inl err)
    with v pk show ?thesis by (simp add: Let_def)
  next
    case (Inr info)
    have step: "getOnchainValidatorInfo_loop sha lookup (w # rest) q infos
        = getOnchainValidatorInfo_loop sha lookup rest (q @ [?key]) (infos @ [info])"
      using v Inr by (simp add: Let_def)
    from Inr pk show ?thesis
      unfolding step Cons.IH [OF wf] by (simp add: Let_def)
  qed
qed

text \<open>
  Claim C10.  For validators that are present and carry 48-byte public keys, the key that
  \<open>getOnchainValidatorInfo\<close> looks up for a validator is the hash of its public
  key followed by exactly 16 zero bytes, a buffer of 64 bytes (two 32-byte words).  When
  the contract binding was created and every lookup succeeds, the function looks up this
  key for every validator, in order, and returns what the lookups gave.  In general the
  run is determined exactly: no lookup at all when the binding cannot be created;
  otherwise the keys of the validators up to and including the first whose lookup fails,
  and then the failure.
\<close>

theorem lookup_key_is_padded_pubkey_hash:
  assumes "wellformed_pubkeys allValidators"
  shows "(\<forall>w \<in> set allValidators.
            length (pubkey_of w) = 48 \<and> length (pubkey_of w @ replicate 16 0) = 2 * 32)
         \<and> (NewEigenPod_err = None
              \<and> (\<forall>w \<in> set allValidators. \<not> isl (lookup (sha256_Sum256 (pubkey_of w @ replicate 16 0))))
            \<longrightarrow> getOnchainValidatorInfo sha256_Sum256 NewEigenPod_err lookup allValidators
                  = (map (\<lambda>w. sha256_Sum256 (pubkey_of w @ replicate 16 0)) allValidators,
                     Inr (map (\<lambda>w. projr (lookup (sha256_Sum256 (pubkey_of w @ replicate 16 0))))
                            allValidators)))
         \<and> getOnchainValidatorInfo sha256_Sum256 NewEigenPod_err lookup allValidators
             = (case NewEigenPod_err of
                  Some err \<Rightarrow> ([], Inl (Fatal ''failed to locate Eigenpod. Is your address correct?''))
                | None \<Rightarrow>
                    let key = (\<lambda>w. sha256_Sum256 (pubkey_of w @ replicate 16 0));
                        ok = takeWhile (\<lambda>w. \<not> isl (lookup (key w))) allValidators
                    in if length ok = length allValidators
                       then (map key allValidators,
                             Inr (map (\<lambda>w. projr (lookup (key w))) allValidators))
                       else (map key (take (Suc (length ok)) allValidators),
                             Inl (Fatal ''failed to fetch validator eigeninfo.'')))"
proof (intro conjI impI)
  show "\<forall>w \<in> set allValidators.
      length (pubkey_of w) = 48 \<and> length (pubkey_of w @ replicate 16 0) = 2 * 32"
    using assms by (auto simp: wellformed_pubkeys_def list_all_iff pubkey_of_def split: option.splits)
next
  assume h: "NewEigenPod_err = None
      \<and> (\<forall>w \<in> set allValidators. \<not> isl (lookup (sha256_Sum256 (pubkey_of w @ replicate 16 0))))"
  then have tw: "takeWhile (\<lambda>w. \<not> isl (lookup (sha256_Sum256 (pubkey_of w @ replicate 16 0)))) allValidators
      = allValidators"
    by (intro takeWhile_eq_all_conv [THEN iffD2]) simp
  from h show "getOnchainValidatorInfo sha256_Sum256 NewEigenPod_err lookup allValidators
      = (map (\<lambda>w. sha256_Sum256 (pubkey_of w @ replicate 16 0)) allValidators,
         Inr (map (\<lambda>w. projr (lookup (sha256_Sum256 (pubkey_of w @ replicate 16 0)))) allValidators))"
    by (simp add: getOnchainValidatorInfo_def getOnchainValidatorInfo_loop_exact [OF assms] Let_def
          zeroes_replicate tw)
next
  show "getOnchainValidatorInfo sha256_Sum256 NewEigenPod_err lookup allValidators
             = (case NewEigenPod_err of
                  Some err \<Rightarrow> ([], Inl (Fatal ''failed to locate Eigenpod. Is your address correct?''))
                | None \<Rightarrow>
                    let key = (\<lambda>w. sha256_Sum256 (pubkey_of w @ replicate 16 0));
                        ok = takeWhile (\<lambda>w. \<not> isl (lookup (key w))) allValidators
                    in if length ok = length allValidators
                       then (map key allValidators,
                             Inr (map (\<lambda>w. projr (lookup (key w))) allValidators))
                       else (map key (take (Suc (length ok)) allValidators),
                             Inl (Fatal ''failed to fetch validator eigeninfo.'')))"
    by (cases NewEigenPod_err)
       (simp_all add: getOnchainValidatorInfo_def getOnchainValidatorInfo_loop_exact [OF assms]
          Let_def zeroes_replicate)
qed

theorem lookup_key_is_padded_pubkey_hash_witness:
  "wellformed_pubkeys [\<lparr>Validator = Some (ex_validator 1 0xAB), Index = 0\<rparr>,
                       \<lparr>Validator = Some (ex_validator 1 0xCD), Index = 3\<rparr>]
   \<and> getOnchainValidatorInfo toy_hash None (\<lambda>key. Inr (length key))
        [\<lparr>Validator = Some (ex_validator 1 0xAB), Index = 0\<rparr>,
         \<lparr>Validator = Some (ex_validator 1 0xCD), Index = 3\<rparr>]
      = ([toy_hash (replicate 48 7 @ replicate 16 0), toy_hash (replicate 48 7 @ replicate 16 0)],
         Inr [32, 32])
   \<and> getOnchainValidatorInfo toy_hash None (\<lambda>key. Inl ''no such validator'' :: go_error + nat)
        [\<lparr>Validator = Some (ex_validator 1 0xAB), Index = 0\<rparr>,
         \<lparr>Validator = Some (ex_validator 1 0xCD), Index = 3\<rparr>]
      = ([toy_hash (replicate 48 7 @ replicate 16 0)],
         Inl (Fatal ''failed to fetch validator eigeninfo.''))"
proof -
  let ?vs = "[\<lparr>Validator = Some (ex_validator 1 0xAB), Index = 0\<rparr>,
              \<lparr>Validator = Some (ex_validator 1 0xCD), Index = 3\<rparr>]"
  let ?look = "\<lambda>key :: bytes. Inr (length key) :: go_error + nat"
  let ?fail = "\<lambda>key :: bytes. Inl ''no such validator'' :: go_error + nat"
  have wf: "wellformed_pubkeys ?vs"
    by (simp add: wellformed_pubkeys_def ex_validator_def)
  have ok: "(None :: go_error option) = None
      \<and> (\<forall>w \<in> set ?vs. \<not> isl (?look (toy_hash (pubkey_of w @ replicate 16 0))))"
    by simp
  from lookup_key_is_padded_pubkey_hash [OF wf, of None ?look toy_hash] ok
  have 1: "getOnchainValidatorInfo toy_hash None ?look ?vs
      = (map (\<lambda>w. toy_hash (pubkey_of w @ replicate 16 0)) ?vs,
         Inr (map (\<lambda>w. projr (?look (toy_hash (pubkey_of w @ replicate 16 0)))) ?vs))"
    by blast
  from lookup_key_is_padded_pubkey_hash [OF wf, of None ?fail toy_hash]
  have 2: "getOnchainValidatorInfo toy_hash None ?fail ?vs
      = ([toy_hash (replicate 48 7 @ replicate 16 0)],
         Inl (Fatal ''failed to fetch validator eigeninfo.''))"
    by (simp add: pubkey_of_def ex_validator_def)
  from 1 have 3: "getOnchainValidatorInfo toy_hash None ?look ?vs
      = ([toy_hash (replicate 48 7 @ replicate 16 0), toy_hash (replicate 48 7 @ replicate 16 0)],
         Inr [32, 32])"
    by (simp add: pubkey_of_def ex_validator_def toy_hash_def)
  from wf 2 3 show ?thesis by (simp only:) 
qed

section \<open>Properties of the credentials command\<close>

text \<open>
  Claim C2, as the code has it.  When the command is invoked with simulate-only mode and
  a sender, it first connects to the nodes (\<open>GetClients\<close>); if that succeeds it
  stops with the validation message before any proof is generated or submitted, and if
  it fails the run ends with the connection error instead.  Either way the connection
  attempt is the only call of the run.
\<close>

theorem simulate_with_sender_rejected:
  assumes "SimulateTransaction args" and "Sender args \<noteq> []"
  shows "CredentialsCommand core args =
           ([Call_GetClients (Node args) (BeaconNode args) (isVerbose args)],
            Inl (Fatal (case GetClients core (Node args) (BeaconNode args) (isVerbose args) of
                          Some err \<Rightarrow> ''failed to reach ethereum clients''
                        | None \<Rightarrow> ''if using --print-calldata, please do not specify a --sender.'')))"
  using assms by (simp add: CredentialsCommand_def Let_def split: option.splits)

theorem simulate_with_sender_rejected_witness:
  "SimulateTransaction (ex_args\<lparr>SimulateTransaction := True, Sender := ''0xabc''\<rparr>)
   \<and> Sender (ex_args\<lparr>SimulateTransaction := True, Sender := ''0xabc''\<rparr>) \<noteq> []
   \<and> CredentialsCommand ex_core (ex_args\<lparr>SimulateTransaction := True, Sender := ''0xabc''\<rparr>) =
       ([Call_GetClients ''exec'' ''beacon'' False],
        Inl (Fatal ''if using --print-calldata, please do not specify a --sender.''))"
proof -
  have h: "SimulateTransaction (ex_args\<lparr>SimulateTransaction := True, Sender := ''0xabc''\<rparr>)"
    "Sender (ex_args\<lparr>SimulateTransaction := True, Sender := ''0xabc''\<rparr>) \<noteq> []"
    by simp_all
  from simulate_with_sender_rejected [OF h, of ex_core] h show ?thesis
    by (simp add: ex_args_def ex_core_def isVerbose_def)
qed

text \<open>
  The validation error is not raised before every network call: with both flags set the
  run starts with the connection to the nodes, and when the nodes cannot be reached the
  validation message is never produced.
\<close>

theorem simulate_with_sender_network_first_counterexample:
  "CredentialsCommand ex_core (ex_args\<lparr>SimulateTransaction := True, Sender := ''0xabc''\<rparr>) =
       ([Call_GetClients ''exec'' ''beacon'' False],
        Inl (Fatal ''if using --print-calldata, please do not specify a --sender.''))
   \<and> is_network_call (Call_GetClients ''exec'' ''beacon'' False :: (nat, string) event)
   \<and> CredentialsCommand ex_core_unreachable (ex_args\<lparr>SimulateTransaction := True, Sender := ''0xabc''\<rparr>) =
       ([Call_GetClients ''exec'' ''beacon'' False],
        Inl (Fatal ''failed to reach ethereum clients''))"
  by (simp add: CredentialsCommand_def isVerbose_def Let_def ex_args_def ex_core_def ex_core_unreachable_def)

lemma getClients_ok:
  "ethclient_Dial env node = None \<Longrightarrow> eth_ChainID env = None \<Longrightarrow> NewBeaconClient env uri = None
   \<Longrightarrow> getClients env node uri = ([Net_Dial node, Net_ChainID, Net_NewBeaconClient uri], Inr ())"
  by (simp add: getClients_def)

text \<open>
  Claim C3, as the code has it.  In the credentials action of cli/main.go, when proof
  generation returns no proofs or no indices, the action returns nil right after that
  call: nothing is written and nothing is submitted.  In \<open>CredentialsCommand\<close>,
  when proof generation returns no proofs and no error, the run ends with the error
  message "no inactive validators", and nothing is submitted.
\<close>

theorem nothing_to_prove:
  "(ethclient_Dial env (execNode flags) = None \<and> eth_ChainID env = None
      \<and> NewBeaconClient env (beaconNode flags) = None
      \<and> (fst (GenerateValidatorProof_main env (podAddress flags)) = None
           \<or> snd (GenerateValidatorProof_main env (podAddress flags)) = None)
    \<longrightarrow> credentials_action env flags =
          ([Net_Dial (execNode flags), Net_ChainID, Net_NewBeaconClient (beaconNode flags),
            Call_GenerateValidatorProof_main (podAddress flags)],
           Inr None))
   \<and> (GetClients core (Node args) (BeaconNode args) (isVerbose args) = None
      \<and> \<not> (SimulateTransaction args \<and> Sender args \<noteq> [])
      \<and> GenerateValidatorProof core (EigenpodAddress args) (specificValidatorIndex args)
            (isVerbose args) = Inr (None, ts)
    \<longrightarrow> snd (CredentialsCommand core args) = Inl (Fatal ''no inactive validators'')
        \<and> filter is_submission (fst (CredentialsCommand core args)) = [])"
proof (intro conjI impI)
  assume h: "ethclient_Dial env (execNode flags) = None \<and> eth_ChainID env = None
      \<and> NewBeaconClient env (beaconNode flags) = None
      \<and> (fst (GenerateValidatorProof_main env (podAddress flags)) = None
           \<or> snd (GenerateValidatorProof_main env (podAddress flags)) = None)"
  then have g: "getClients env (execNode flags) (beaconNode flags) =
      ([Net_Dial (execNode flags), Net_ChainID, Net_NewBeaconClient (beaconNode flags)], Inr ())"
    by (simp add: getClients_ok)
  obtain p ixs where r: "GenerateValidatorProof_main env (podAddress flags) = (p, ixs)"
    by (cases "GenerateValidatorProof_main env (podAddress flags)")
  with h have "p = None \<or> ixs = None" by simp
  with g r show "credentials_action env flags =
          ([Net_Dial (execNode flags), Net_ChainID, Net_NewBeaconClient (beaconNode flags),
            Call_GenerateValidatorProof_main (podAddress flags)],
           Inr None)"
    by (cases p; cases ixs) (simp_all add: credentials_action_def Let_def)
next
  assume h: "GetClients core (Node args) (BeaconNode args) (isVerbose args) = None
      \<and> \<not> (SimulateTransaction args \<and> Sender args \<noteq> [])
      \<and> GenerateValidatorProof core (EigenpodAddress args) (specificValidatorIndex args)
            (isVerbose args) = Inr (None, ts)"
  then show "snd (CredentialsCommand core args) = Inl (Fatal ''no inactive validators'')"
    by (simp add: CredentialsCommand_def Let_def)
  from h show "filter is_submission (fst (CredentialsCommand core args)) = []"
    by (simp add: CredentialsCommand_def Let_def)
qed

theorem nothing_to_prove_witness:
  "credentials_action ex_main_nothing ex_flags =
     ([Net_Dial ''exec'', Net_ChainID, Net_NewBeaconClient ''beacon'',
       Call_GenerateValidatorProof_main ''0xPOD''], Inr None)
   \<and> GenerateValidatorProof ex_core_nothing (EigenpodAddress ex_args)
        (specificValidatorIndex ex_args) (isVerbose ex_args) = Inr (None, 0)
   \<and> snd (CredentialsCommand ex_core_nothing ex_args) = Inl (Fatal ''no inactive validators'')
   \<and> filter is_submission (fst (CredentialsCommand ex_core_nothing ex_args)) = []"
proof -
  have a: "ethclient_Dial ex_main_nothing (execNode ex_flags) = None \<and> eth_ChainID ex_main_nothing = None
      \<and> NewBeaconClient ex_main_nothing (beaconNode ex_flags) = None
      \<and> (fst (GenerateValidatorProof_main ex_main_nothing (podAddress ex_flags)) = None
           \<or> snd (GenerateValidatorProof_main ex_main_nothing (podAddress ex_flags)) = None)"
    by (simp add: ex_main_nothing_def)
  have b: "GetClients ex_core_nothing (Node ex_args) (BeaconNode ex_args) (isVerbose ex_args) = None
      \<and> \<not> (SimulateTransaction ex_args \<and> Sender ex_args \<noteq> [])
      \<and> GenerateValidatorProof ex_core_nothing (EigenpodAddress ex_args)
            (specificValidatorIndex ex_args) (isVerbose ex_args) = Inr (None, 0)"
    by (simp add: ex_core_nothing_def ex_core_def ex_args_def)
  note t = nothing_to_prove [of ex_main_nothing ex_flags ex_core_nothing ex_args 0]
  from t a have 1: "credentials_action ex_main_nothing ex_flags =
          ([Net_Dial (execNode ex_flags), Net_ChainID, Net_NewBeaconClient (beaconNode ex_flags),
            Call_GenerateValidatorProof_main (podAddress ex_flags)], Inr None)" by blast
  from t b have 2: "snd (CredentialsCommand ex_core_nothing ex_args) = Inl (Fatal ''no inactive validators'')
      \<and> filter is_submission (fst (CredentialsCommand ex_core_nothing ex_args)) = []"
    by blast
  from 1 2 b show ?thesis by (simp add: ex_flags_def)
qed

text \<open>
  In \<open>CredentialsCommand\<close> a run without validators to prove does not return
  cleanly: it ends with an error message.
\<close>

theorem no_validators_is_an_error_counterexample:
  "CredentialsCommand ex_core_nothing ex_args =
     ([Call_GetClients ''exec'' ''beacon'' True, Call_GenerateValidatorProof ''0xPOD'' None True],
      Inl (Fatal ''no inactive validators''))
   \<and> snd (CredentialsCommand ex_core_nothing ex_args) \<noteq> Inr None"
  by (simp add: CredentialsCommand_def isVerbose_def specificValidatorIndex_def Let_def
        ex_core_nothing_def ex_core_def ex_args_def)






section \<open>Properties of the share report\<close>

lemma deref_Inr: "deref h p = Inr x \<longleftrightarrow> (\<exists>a. p = Some a \<and> a < length h \<and> h ! a = x)"
  by (auto simp: deref_def split: option.splits)

lemma sub_into_new:
  assumes "x < length h" and "y < length h"
  shows "big_Float_Sub sub (h @ [zero]) (length h) (Some x) (Some y)
           = Inr (h @ [sub (h ! x) (h ! y)], length h)"
  using assms by (simp add: big_Float_Sub_def nth_append)

text \<open>
  Claim C7.  With a checkpoint active, the delta that the report prints is the pending
  shares converted to ether minus the current total shares; with none active it is the
  total shares after a checkpoint minus the current total shares.  The report writes only
  to values it allocates itself: every value that existed before, the fields of the status
  among them, is unchanged afterwards (given that the conversion to ether leaves existing
  values alone).
\<close>

theorem share_report_reads_only:
  assumes cur: "deref h (CurrentTotalSharesETH status) = Inr cur"
    and tot: "ActiveCheckpoint status = None \<longrightarrow> deref h (TotalSharesAfterCheckpointETH status) = Inr tot"
    and conv: "\<forall>cp. ActiveCheckpoint status = Some cp \<longrightarrow>
                 conversion_preserves gweiToEther h (PendingSharesGwei cp)"
  shows "\<exists>h' r. status_share_report sub zero gweiToEther h status = Inr (h', r)
           \<and> take (length h) h' = h
           \<and> deref h' (CurrentTotalSharesETH status) = Inr cur
           \<and> (case ActiveCheckpoint status of
                 None \<Rightarrow> r = CheckpointPreview (sub tot cur) cur tot
                        \<and> deref h' (TotalSharesAfterCheckpointETH status) = Inr tot
               | Some cp \<Rightarrow>
                   (\<exists>h1 e. gweiToEther h (PendingSharesGwei cp) = Inr (h1, e)
                      \<and> r = CheckpointActive (StartedAt cp) (sub (h1 ! e) cur) cur (h1 ! e)
                              (ProofsRemaining cp)))"
proof -
  from cur obtain c where c: "CurrentTotalSharesETH status = Some c" "c < length h" "h ! c = cur"
    by (auto simp: deref_Inr)
  show ?thesis
  proof (cases "ActiveCheckpoint status")
    case None
    with tot obtain t where t: "TotalSharesAfterCheckpointETH status = Some t" "t < length h" "h ! t = tot"
      by (auto simp: deref_Inr)
    let ?h' = "h @ [sub tot cur]"
    from c t have s: "big_Float_Sub sub (h @ [zero]) (length h) (Some t) (Some c) = Inr (?h', length h)"
      by (simp add: sub_into_new)
    from c t have d: "deref ?h' (Some c) = Inr cur" "deref ?h' (Some t) = Inr tot"
      by (simp_all add: deref_def nth_append)
    from None c t s d
    have "status_share_report sub zero gweiToEther h status
            = Inr (?h', CheckpointPreview (sub tot cur) cur tot)"
      by (simp add: status_share_report_def new_big_Float_def Let_def)
    with None c t d show ?thesis by simp
  next
    case (Some cp)
    with conv have "conversion_preserves gweiToEther h (PendingSharesGwei cp)" by blast
    then obtain h1 e where g: "gweiToEther h (PendingSharesGwei cp) = Inr (h1, e)"
      and e: "e < length h1" and pre: "take (length h) h1 = h"
      by (auto simp: conversion_preserves_def split: sum.splits)
    from pre have "length (take (length h) h1) = length h" by simp
    then have le: "length h \<le> length h1" by simp
    with c have c1: "c < length h1" by simp
    from c have "take (length h) h1 ! c = h1 ! c" by simp
    with pre c have hc: "h1 ! c = cur" by simp
    let ?h' = "h1 @ [sub (h1 ! e) cur]"
    from e c1 hc have s: "big_Float_Sub sub (h1 @ [zero]) (length h1) (Some e) (Some c) = Inr (?h', length h1)"
      by (simp add: sub_into_new)
    from c1 hc have d: "deref ?h' (Some c) = Inr cur"
      by (simp add: deref_def nth_append)
    from e have he: "?h' ! e = h1 ! e" by (simp add: nth_append)
    from Some g c s d he
    have "status_share_report sub zero gweiToEther h status
            = Inr (?h', CheckpointActive (StartedAt cp) (sub (h1 ! e) cur) cur (h1 ! e) (ProofsRemaining cp))"
      by (simp add: status_share_report_def new_big_Float_def)
    moreover from le pre have "take (length h) ?h' = h" by simp
    ultimately show ?thesis using Some g c d by simp
  qed
qed

theorem share_report_reads_only_witness:
  "deref ex_store (CurrentTotalSharesETH ex_status_active) = Inr 3
   \<and> conversion_preserves ex_gweiToEther ex_store (Some 0)
   \<and> status_share_report (-) 0 ex_gweiToEther ex_store ex_status_active
       = Inr ([5000000000, 3, 4, 5, 2], CheckpointActive 1700000000 2 3 5 2)
   \<and> status_share_report (-) 0 ex_gweiToEther ex_store ex_status_idle
       = Inr ([5000000000, 3, 4, 1], CheckpointPreview 1 3 4)"
proof -
  have cur: "deref ex_store (CurrentTotalSharesETH ex_status_active) = Inr 3"
    by (simp add: deref_def ex_store_def ex_status_active_def)
  have tot: "ActiveCheckpoint ex_status_active = None \<longrightarrow>
      deref ex_store (TotalSharesAfterCheckpointETH ex_status_active) = Inr 4"
    by (simp add: ex_status_active_def)
  have cp: "conversion_preserves ex_gweiToEther ex_store (Some 0)"
    by (simp add: conversion_preserves_def ex_gweiToEther_def deref_def ex_store_def)
  then have conv: "\<forall>cp. ActiveCheckpoint ex_status_active = Some cp \<longrightarrow>
      conversion_preserves ex_gweiToEther ex_store (PendingSharesGwei cp)"
    by (simp add: ex_status_active_def)
  from share_report_reads_only [OF cur tot conv, of "(-)" 0]
  obtain h' r where "status_share_report (-) 0 ex_gweiToEther ex_store ex_status_active = Inr (h', r)"
    by blast
  moreover have "status_share_report (-) 0 ex_gweiToEther ex_store ex_status_active
       = Inr ([5000000000, 3, 4, 5, 2], CheckpointActive 1700000000 2 3 5 2)"
    by (simp add: status_share_report_def new_big_Float_def big_Float_Sub_def deref_def
          ex_gweiToEther_def ex_store_def ex_status_active_def)
  moreover have "status_share_report (-) 0 ex_gweiToEther ex_store ex_status_idle
       = Inr ([5000000000, 3, 4, 1], CheckpointPreview 1 3 4)"
    by (simp add: status_share_report_def new_big_Float_def big_Float_Sub_def deref_def
          ex_gweiToEther_def ex_store_def ex_status_active_def ex_status_idle_def Let_def)
  ultimately show ?thesis using cur cp by simp
qed

section \<open>Properties of the Merkle proof model\<close>

lemma hash_pairs_length: "length xs = 2 * m \<Longrightarrow> length (hash_pairs H xs) = m"
proof (induction H xs arbitrary: m rule: hash_pairs.induct)
  case (1 H a b rest)
  then obtain m' where "m = Suc m'" by (cases m) auto
  with 1 show ?case by simp
qed auto

lemma hash_pairs_nth:
  "2 * i + 1 < length xs \<Longrightarrow> hash_pairs H xs ! i = H (xs ! (2 * i) @ xs ! (2 * i + 1))"
proof (induction H xs arbitrary: i rule: hash_pairs.induct)
  case (1 H a b rest)
  show ?case
  proof (cases i)
    case 0
    then show ?thesis by simp
  next
    case (Suc j)
    with 1 show ?thesis by simp
  qed
qed auto

lemma power_of_two_exists: "is_power_of_two n \<Longrightarrow> \<exists>k. n = 2 ^ k"
proof (induction n rule: is_power_of_two.induct)
  case (1 n)
  show ?case
  proof (cases "n \<le> 1")
    case True
    with "1.prems" have "n = 2 ^ 0" by (simp add: is_power_of_two.simps [of n])
    then show ?thesis by blast
  next
    case False
    with "1.prems" have ev: "even n" and p: "is_power_of_two (n div 2)"
      by (simp_all add: is_power_of_two.simps [of n])
    from "1.IH" [OF False p] obtain k where "n div 2 = 2 ^ k" by blast
    with ev have "n = 2 ^ Suc k" by auto
    then show ?thesis by blast
  qed
qed

lemma fold_sibling_path:
  "length level = 2 ^ k \<Longrightarrow> i < 2 ^ k \<Longrightarrow>
     fold_path H (sibling_path H level i) (2 ^ k + i) (level ! i) = merkle_reduce H level
     \<and> length (sibling_path H level i) = k"
proof (induction k arbitrary: level i)
  case 0
  then obtain r where "level = [r]" by (cases level) auto
  with 0 show ?case
    by (simp add: sibling_path.simps [of H "[r]"] merkle_reduce.simps [of H "[r]"])
next
  case (Suc k)
  let ?up = "hash_pairs H level"
  from Suc.prems have len: "length level = 2 * 2 ^ k" by simp
  then have len_up: "length ?up = 2 ^ k" by (rule hash_pairs_length)
  from Suc.prems have i2: "i div 2 < 2 ^ k" by simp
  have "(1::nat) \<le> 2 ^ k" by simp
  with len have big: "\<not> length level \<le> 1" by linarith
  then obtain a b rest where lv: "level = a # b # rest"
    by (cases level; cases "tl level") auto
  have red: "merkle_reduce H level = merkle_reduce H ?up"
    by (subst merkle_reduce.simps) (simp add: lv)
  have sp: "sibling_path H level i =
      level ! (if even i then i + 1 else i - 1) # sibling_path H ?up (i div 2)"
    using big by (subst sibling_path.simps) simp
  have g2: "(2 ^ Suc k + i) div 2 = 2 ^ k + i div 2" by simp
  have par: "odd (2 ^ Suc k + i) \<longleftrightarrow> odd i" by simp
  have node: "(if odd i then H (level ! (i - 1) @ level ! i) else H (level ! i @ level ! (i + 1)))
      = ?up ! (i div 2)"
  proof (cases "odd i")
    case True
    then obtain j where j: "i = 2 * j + 1" by (auto elim: oddE)
    with Suc.prems len have "2 * j + 1 < length level" by simp
    from hash_pairs_nth [OF this, of H] j show ?thesis by simp
  next
    case False
    then obtain j where j: "i = 2 * j" by (auto elim: evenE)
    with Suc.prems len have "2 * j + 1 < length level" by simp
    from hash_pairs_nth [OF this, of H] j show ?thesis by simp
  qed
  from Suc.IH [OF len_up i2] have
    ih1: "fold_path H (sibling_path H ?up (i div 2)) (2 ^ k + i div 2) (?up ! (i div 2)) = merkle_reduce H ?up"
    and ih2: "length (sibling_path H ?up (i div 2)) = k" by simp_all
  have "fold_path H (sibling_path H level i) (2 ^ Suc k + i) (level ! i)
      = fold_path H (sibling_path H ?up (i div 2)) (2 ^ k + i div 2) (?up ! (i div 2))"
    unfolding sp fold_path.simps g2 par using node by (cases "odd i") simp_all
  with ih1 ih2 red sp show ?case by simp
qed

text \<open>
  Claim C4.  For every hash function, every list of leaves whose length is a power of two
  and every generalized index of a leaf, \<open>build\<close> succeeds and the proof it
  returns verifies against the root of the tree; the proof names the requested leaf and
  index, and its path has as many siblings as the tree has levels.
\<close>

theorem merkle_round_trip:
  assumes "is_power_of_two (length leaves)"
    and "length leaves \<le> g" and "g < 2 * length leaves"
  shows "\<exists>p. build H leaves g = Inr p
             \<and> verify H p (merkle_root H leaves)
             \<and> leaf p = leaves ! (g - length leaves)
             \<and> generalizedIndex p = g
             \<and> root_hash p = merkle_root H leaves
             \<and> 2 ^ length (path p) = length leaves"
proof -
  let ?n = "length leaves" and ?i = "g - length leaves"
  let ?p = "\<lparr>leaf = leaves ! ?i, path = sibling_path H (map zero_pad leaves) ?i,
             generalizedIndex = g, root_hash = merkle_root H leaves\<rparr>"
  from assms(1) obtain k where k: "?n = 2 ^ k"
    using power_of_two_exists by blast
  from assms(2,3) have i: "?i < ?n" and g: "g = ?n + ?i" by simp_all
  have b: "build H leaves g = Inr ?p"
    using assms by (simp add: build_def Let_def)
  have "length (map zero_pad leaves) = 2 ^ k" using k by simp
  from fold_sibling_path [OF this, of ?i H] i k
  have f: "fold_path H (sibling_path H (map zero_pad leaves) ?i) (2 ^ k + ?i) (map zero_pad leaves ! ?i)
             = merkle_reduce H (map zero_pad leaves)"
    and l: "length (sibling_path H (map zero_pad leaves) ?i) = k" by simp_all
  from g k have g': "2 ^ k + ?i = g" by simp
  from f i have "verify H ?p (merkle_root H leaves)"
    unfolding g' by (simp add: verify_def merkle_root_def)
  with b l k show ?thesis by simp
qed

theorem merkle_round_trip_witness:
  "is_power_of_two (length [[1], [2], [3], [4 :: byte]])
   \<and> length [[1], [2], [3], [4 :: byte]] \<le> 6 \<and> (6 :: nat) < 2 * length [[1], [2], [3], [4 :: byte]]
   \<and> verify toy_hash (projr (build toy_hash [[1], [2], [3], [4]] 6)) (merkle_root toy_hash [[1], [2], [3], [4]])
   \<and> length (path (projr (build toy_hash [[1], [2], [3], [4]] 6))) = 2"
proof -
  have len4: "length [[1], [2], [3], [4 :: byte]] = 4" by simp
  have p: "is_power_of_two (length [[1], [2], [3], [4 :: byte]])"
    unfolding len4 by code_simp
  have r: "length [[1], [2], [3], [4 :: byte]] \<le> 6" "(6 :: nat) < 2 * length [[1], [2], [3], [4 :: byte]]"
    by simp_all
  from merkle_round_trip [OF p r, of toy_hash]
  obtain q where q: "build toy_hash [[1], [2], [3], [4]] 6 = Inr q"
    and v: "verify toy_hash q (merkle_root toy_hash [[1], [2], [3], [4]])"
    and l: "2 ^ length (path q) = length [[1], [2], [3], [4 :: byte]]" by blast
  from l have "(2 :: nat) ^ length (path q) = 2 ^ 2" by simp
  then have "length (path q) = 2" by (simp only: power_inject_exp one_less_numeral_iff semiring_norm)
  with q v p show ?thesis by simp
qed

section \<open>Properties of the specific-index selection\<close>











section \<open>Properties of the batching model\<close>

lemma chunk_Nil: "chunk [] B = []"
  by (subst chunk.simps) simp

lemma chunk_step: "0 < B \<Longrightarrow> xs \<noteq> [] \<Longrightarrow> chunk xs B = take B xs # chunk (drop B xs) B"
  by (subst chunk.simps) simp

lemma ceil_step: "0 < B \<Longrightarrow> 0 < n \<Longrightarrow> (n + B - 1) div B = Suc ((n - B + B - 1) div B)" for n B :: nat
proof (cases "B \<le> n")
  case True
  assume B: "0 < B"
  from True B have "n + B - 1 = (n - B + B - 1) + B" by linarith
  then have "(n + B - 1) div B = ((n - B + B - 1) + B) div B" by (rule arg_cong)
  also from B have "\<dots> = (n - B + B - 1) div B + 1" by (simp only: div_add_self2)
  finally show ?thesis by (simp only: Suc_eq_plus1)
next
  case False
  assume B: "0 < B" and n: "0 < n"
  from False have z: "n - B + B - 1 = B - 1" by linarith
  from B have "(B - 1) div B = 0" by (intro div_less) linarith
  moreover have "(n + B - 1) div B = 1"
  proof (rule div_nat_eqI)
    from n show "B * 1 \<le> n + B - 1" by linarith
    from False B show "n + B - 1 < B * Suc 1" by simp
  qed
  ultimately show ?thesis unfolding z by linarith
qed

lemma chunk_length: "0 < B \<Longrightarrow> length (chunk xs B) = (length xs + B - 1) div B"
proof (induction xs B rule: chunk.induct)
  case (1 arr chunkSize)
  show ?case
  proof (cases "arr = []")
    case True
    from "1.prems" have "(chunkSize - 1) div chunkSize = 0" by (intro div_less) linarith
    with True show ?thesis by (simp add: chunk_Nil)
  next
    case False
    with "1.prems" have st: "chunk arr chunkSize = take chunkSize arr # chunk (drop chunkSize arr) chunkSize"
      by (simp add: chunk_step)
    from "1.prems" False have "\<not> (chunkSize = 0 \<or> arr = [])" by simp
    from "1.IH" [OF this "1.prems"]
    have ih: "length (chunk (drop chunkSize arr) chunkSize) = (length (drop chunkSize arr) + chunkSize - 1) div chunkSize" .
    have ld: "length (drop chunkSize arr) = length arr - chunkSize" by (rule length_drop)
    from False have "0 < length arr" by simp
    from ceil_step [OF "1.prems" this] ih ld st show ?thesis by (simp only: list.size)
  qed
qed

lemma chunk_nth:
  "0 < B \<Longrightarrow> j < length (chunk xs B) \<Longrightarrow> chunk xs B ! j = take B (drop (j * B) xs)"
proof (induction xs B arbitrary: j rule: chunk.induct)
  case (1 arr chunkSize)
  show ?case
  proof (cases "arr = []")
    case True
    with "1.prems" show ?thesis by (simp add: chunk_Nil)
  next
    case False
    with "1.prems" have st: "chunk arr chunkSize = take chunkSize arr # chunk (drop chunkSize arr) chunkSize"
      by (simp add: chunk_step)
    show ?thesis
    proof (cases j)
      case 0
      with st show ?thesis by simp
    next
      case (Suc j')
      with "1.prems" st have "j' < length (chunk (drop chunkSize arr) chunkSize)" by simp
      with "1.IH" [of j'] False "1.prems"(1)
      have "chunk (drop chunkSize arr) chunkSize ! j' = take chunkSize (drop (j' * chunkSize) (drop chunkSize arr))"
        by simp
      with st Suc show ?thesis by (simp add: add.commute)
    qed
  qed
qed

lemma concat_chunk: "0 < B \<Longrightarrow> concat (chunk xs B) = xs"
proof (induction xs B rule: chunk.induct)
  case (1 arr chunkSize)
  show ?case
  proof (cases "arr = []")
    case True
    then show ?thesis by (simp add: chunk_Nil)
  next
    case False
    with "1.prems" "1.IH" show ?thesis by (simp add: chunk_step)
  qed
qed


lemma ceil_div_nat:
  fixes N B :: nat
  assumes B: "0 < B"
  shows "(N + B - 1) div B = nat \<lceil>real N / real B\<rceil>"
proof (cases "N = 0")
  case True
  with B show ?thesis by simp
next
  case False
  let ?q = "(N + B - 1) div B"
  have "\<lceil>real N / real B\<rceil> = int ?q"
  proof (rule ceiling_unique)
    from False B have "B \<le> N + B - 1" by simp
    then have "1 \<le> ?q" using B by (simp add: Suc_le_eq div_greater_zero_iff)
    then obtain q' where q': "?q = Suc q'" by (cases ?q) auto
    have "?q * B \<le> N + B - 1" by simp
    with q' have "q' * B + B \<le> N + B - 1" by simp
    then have "q' * B < N" using B False by linarith
    then have "real (q' * B) < real N" by (simp only: of_nat_less_iff)
    then have "real q' < real N / real B" using B by (simp add: pos_less_divide_eq)
    with q' show "of_int (int ?q) - 1 < real N / real B" by simp
    have "N + B - 1 < ?q * B + B" using B
      using dividend_less_div_times [of B "N + B - 1"] by (simp add: mult.commute add.commute)
    then have "N \<le> ?q * B" using B by linarith
    then have "real N \<le> real (?q * B)" by (simp only: of_nat_le_iff)
    then have "real N / real B \<le> real ?q" using B by (simp add: pos_divide_le_eq)
    then show "real N / real B \<le> of_int (int ?q)" by simp
  qed
  then show ?thesis by simp
qed


lemma ceil_bounds:
  fixes N B :: nat
  assumes B: "0 < B"
  defines "q \<equiv> (N + B - 1) div B"
  shows "N \<le> q * B" and "0 < N \<Longrightarrow> (q - 1) * B < N"
proof -
  have "N + B - 1 < q * B + B"
    using dividend_less_div_times [of B "N + B - 1"] B
    by (simp add: q_def mult.commute add.commute)
  with B show "N \<le> q * B" by linarith
  assume N: "0 < N"
  have le: "q * B \<le> N + B - 1" by (simp add: q_def)
  from N B have "B \<le> N + B - 1" by linarith
  with B have "1 \<le> q" by (simp add: q_def Suc_le_eq div_greater_zero_iff)
  then obtain q' where q': "q = Suc q'" by (cases q) auto
  with le have "q' * B + B \<le> N + B - 1" by simp
  with N B have "q' * B < N" by linarith
  with q' show "(q - 1) * B < N" by simp
qed

text \<open>
  Claim C6.  For a batch size \<open>B\<close> of at least 1, a list of \<open>N\<close>
  elements is split into exactly \<open>ceil(N/B)\<close> chunks; chunk \<open>j\<close> is the
  \<open>B\<close> elements from position \<open>j * B\<close> on (so the chunks are contiguous
  and in order, and together give the list back); every chunk but the last has exactly
  \<open>B\<close> elements and the last has \<open>N - B * (ceil(N/B) - 1)\<close>.
\<close>

theorem batching_arithmetic:
  assumes "1 \<le> B"
  shows "length (chunk xs B) = nat \<lceil>real (length xs) / real B\<rceil>
         \<and> concat (chunk xs B) = xs
         \<and> (\<forall>j. j < length (chunk xs B) \<longrightarrow> chunk xs B ! j = take B (drop (j * B) xs))
         \<and> (\<forall>j. j + 1 < length (chunk xs B) \<longrightarrow> length (chunk xs B ! j) = B)
         \<and> (chunk xs B \<noteq> [] \<longrightarrow>
               length (last (chunk xs B))
                 = length xs - B * (nat \<lceil>real (length xs) / real B\<rceil> - 1))"
proof -
  let ?N = "length xs" and ?cs = "chunk xs B"
  let ?q = "(?N + B - 1) div B"
  from assms have B: "0 < B" by simp
  have len: "length ?cs = ?q" using B by (rule chunk_length)
  have ceil: "?q = nat \<lceil>real ?N / real B\<rceil>" using B by (rule ceil_div_nat)
  have cat: "concat ?cs = xs" using B by (rule concat_chunk)
  have nth: "?cs ! j = take B (drop (j * B) xs)" if "j < length ?cs" for j
    using B that by (rule chunk_nth)
  have full: "length (?cs ! j) = B" if j: "j + 1 < length ?cs" for j
  proof -
    from j len have jq: "j + 1 \<le> ?q - 1" by simp
    then have "0 < ?q" by simp
    then have N: "0 < ?N" using B by (cases "?N = 0") simp_all
    from jq have "(j + 1) * B \<le> (?q - 1) * B" by (rule mult_le_mono1)
    also from ceil_bounds(2) [OF B N] have "\<dots> < ?N" .
    finally have "j * B + B < ?N" by (simp add: algebra_simps)
    moreover from j have "j < length ?cs" by simp
    ultimately show ?thesis by (simp add: nth)
  qed
  have last: "length (last ?cs) = ?N - B * (?q - 1)" if ne: "?cs \<noteq> []"
  proof -
    from ne have "0 < length ?cs" by simp
    with len have q: "0 < ?q" by (simp only:)
    with len have lt: "?q - 1 < length ?cs" by simp
    from ne have "last ?cs = ?cs ! (length ?cs - 1)" by (rule last_conv_nth)
    with len nth [OF lt] have l: "last ?cs = take B (drop ((?q - 1) * B) xs)" by simp
    from ceil_bounds(1) [OF B, of ?N] have "?N \<le> ?q * B" .
    also from q have "?q * B = (?q - 1) * B + B" by (cases ?q) simp_all
    finally have "?N - (?q - 1) * B \<le> B" by simp
    with l show ?thesis by (simp add: mult.commute)
  qed
  have c1: "length ?cs = nat \<lceil>real ?N / real B\<rceil>" using len ceil by (simp only:)
  have c5: "?cs \<noteq> [] \<longrightarrow> length (last ?cs) = ?N - B * (nat \<lceil>real ?N / real B\<rceil> - 1)"
    using last ceil by (simp only:) blast
  from c1 cat nth full c5 show ?thesis by blast
qed

theorem batching_arithmetic_witness:
  "(1 :: nat) \<le> 2
   \<and> chunk [10, 11, 12 :: nat] 2 = [[10, 11], [12]]
   \<and> length (chunk [10, 11, 12 :: nat] 2) = nat \<lceil>real (length [10, 11, 12 :: nat]) / real (2 :: nat)\<rceil>
   \<and> length (last (chunk [10, 11, 12 :: nat] 2)) = 1"
proof -
  have c: "chunk [10, 11, 12 :: nat] 2 = [[10, 11], [12]]"
    by code_simp
  have b: "(1 :: nat) \<le> 2" by simp
  from batching_arithmetic [OF b, of "[10, 11, 12 :: nat]"] have
    "length (chunk [10, 11, 12 :: nat] 2) = nat \<lceil>real (length [10, 11, 12 :: nat]) / real (2 :: nat)\<rceil>"
    by (rule conjunct1)
  with b c show ?thesis by (simp only:) simp
qed

end
